theory Spec2Isabelle
  imports Main "HOL-Library.Word"
begin

section \<open>Names, Interests, Data\<close>

text \<open>
  A name is a sequence of components and a component is a byte string: the struct
  \<open>ndn_Name\<close> holds an array of \<open>ndn_NameComponent\<close>, each of them a blob.  Bytes are
  the characters of a \<open>string\<close>.
\<close>

type_synonym Component = string
type_synonym Name = "Component list"

text \<open>
  Modelled from the spec: \<open>ndn_Name_match\<close> is only declared in the sources (its body
  is missing).  Its documentation says that it holds when the N components of this name
  are the same as the first N components of the given name, and the spec defines
  \<open>isPrefixOf\<close> as: the size of self is at most the size of the other name and the
  components below that size are pairwise equal.
\<close>

definition Name_match :: "Name \<Rightarrow> Name \<Rightarrow> bool" where
  "Name_match self nm = (length self \<le> length nm \<and> take (length self) nm = self)"

text \<open>
  Modelled from the spec: the classes \<open>Interest\<close>, \<open>Data\<close>, \<open>ForwardingEntry\<close> and
  the signature class are declared outside the sources.  The records carry the fields
  that \<open>node.cpp\<close> reads and writes; millisecond quantities are integers, a negative
  lifetime meaning that none was given, and an Interest built from a name alone has
  neither lifetime nor scope (both negative).
\<close>

record Interest =
  getName :: Name
  getInterestLifetime :: int
  getScope :: int

definition Interest_of_name :: "Name \<Rightarrow> Interest" where
  "Interest_of_name nm = \<lparr>getName = nm, getInterestLifetime = - 1, getScope = - 1\<rparr>"

definition setScope :: "int \<Rightarrow> Interest \<Rightarrow> Interest" where
  "setScope s i = i\<lparr>getScope := s\<rparr>"

text \<open>
  Modelled from the spec: \<open>Interest::matchesName\<close> is true exactly when the name of
  the Interest is a prefix of the given name.
\<close>

definition matchesName :: "Interest \<Rightarrow> Name \<Rightarrow> bool" where
  "matchesName i nm = Name_match (getName i) nm"

datatype Signature = NoSignature | SignatureSha256WithRsa string

record Data =
  getDataName :: Name
  getContent :: string
  getSignature :: Signature

definition Data_default :: Data where
  "Data_default = \<lparr>getDataName = [], getContent = [], getSignature = NoSignature\<rparr>"

record ForwardingEntry =
  getAction :: string
  getEntryPrefix :: Name
  getFaceId :: int
  getForwardingFlags :: nat
  getFreshnessPeriod :: int

text \<open>
  An element handed over by the transport.  Decoding the wire format is the codec's
  work; a block is given here by its type (\<open>Tlv::Interest\<close>, \<open>Tlv::Data\<close>, anything
  else) together with the packet that \<open>wireDecode\<close> reads from it.
\<close>

datatype Block = InterestBlock Interest | DataBlock Data | OtherBlock

section \<open>Callbacks, tables and the node\<close>

text \<open>
  A callback (\<open>OnData\<close>, \<open>OnTimeout\<close>, \<open>OnInterest\<close>) is a function object of the
  application.  The tables hold a handle of it, \<open>None\<close> being the empty function
  object; what the application does when one is called is part of the environment
  below.  Calling an empty function object throws \<open>bad_function_call\<close>.
\<close>

type_synonym callback = nat

datatype exn = bad_function_call | AppException nat | TransportException nat

datatype call =
    OnDataCall callback Interest Data
  | OnTimeoutCall callback Interest
  | OnInterestCall callback Name Interest "64 word"

record PendingInterest =
  getPendingInterestId :: "64 word"
  getInterest :: Interest
  getOnData :: "callback option"
  getOnTimeout :: "callback option"
  timeoutTimeMilliseconds :: int

record RegisteredPrefix =
  getRegisteredPrefixId :: "64 word"
  getPrefix :: Name
  getOnInterest :: "callback option"

text \<open>
  The state of a \<open>Node\<close>: its transport, the two tables, the id of the connected hub,
  the two static id counters and the reading of the clock
  (\<open>ndn_getNowMilliseconds\<close>).
\<close>

record 'tr Node =
  transport :: 'tr
  pendingInterestTable :: "PendingInterest list"
  registeredPrefixTable :: "RegisteredPrefix list"
  ndndId :: string
  lastPendingInterestId :: "64 word"
  lastRegisteredPrefixId :: "64 word"
  nowMilliseconds :: int

text \<open>
  The environment of the node: the transport (a state of type \<open>'tr\<close> with the three
  operations the node calls; \<open>connect\<close> and \<open>send\<close> may throw), the codec and the
  application.  A callback of the application runs on the node as it is when the call is
  made, may call back into the node, and either returns or throws; \<open>app\<close> gives the
  exception, if any, and the node it leaves behind.
\<close>

record 'tr Env =
  isConnected :: "'tr \<Rightarrow> bool"
  connect :: "'tr \<Rightarrow> exn option \<times> 'tr"
  send :: "'tr \<Rightarrow> string \<Rightarrow> exn option \<times> 'tr"
  interestWireEncode :: "Interest \<Rightarrow> string"
  dataWireEncode :: "Data \<Rightarrow> string"
  forwardingEntryWireEncode :: "ForwardingEntry \<Rightarrow> string"
  app :: "call \<Rightarrow> 'tr Node \<Rightarrow> exn option \<times> 'tr Node"

text \<open>
  The two static counters belong to the process, not to a node: \<open>node.cpp\<close>
  initialises them to 0 when the process starts, and the constructor of \<open>Node\<close> does
  not touch them.  The constructor takes their current values here; it makes the tables
  empty and leaves the hub id empty.  The first node of a process finds the counters at
  their initial values.
\<close>

definition initial_lastPendingInterestId :: "64 word" where
  "initial_lastPendingInterestId = 0"

definition initial_lastRegisteredPrefixId :: "64 word" where
  "initial_lastRegisteredPrefixId = 0"

definition Node_new :: "'tr \<Rightarrow> 64 word \<Rightarrow> 64 word \<Rightarrow> int \<Rightarrow> 'tr Node" where
  "Node_new t lastPending lastRegistered now =
     \<lparr>transport = t, pendingInterestTable = [], registeredPrefixTable = [], ndndId = [],
      lastPendingInterestId = lastPending, lastRegisteredPrefixId = lastRegistered,
      nowMilliseconds = now\<rparr>"

definition first_Node :: "'tr \<Rightarrow> int \<Rightarrow> 'tr Node" where
  "first_Node t now =
     Node_new t initial_lastPendingInterestId initial_lastRegisteredPrefixId now"

text \<open>\<open>vector::erase(begin() + i)\<close>.\<close>

definition erase :: "'a list \<Rightarrow> nat \<Rightarrow> 'a list" where
  "erase xs i = take i xs @ drop (Suc i) xs"

section \<open>The pending interest table\<close>

text \<open>
  Modelled from the spec: the types of the millisecond quantities are declared outside
  the sources, and the spec makes them signed 64-bit integers.  The values are kept as
  integers, and an addition of the code is the sum wrapped around to 64 bits.
\<close>

definition i64 :: "int \<Rightarrow> int" where
  "i64 x = (x + 2 ^ 63) mod 2 ^ 64 - 2 ^ 63"

text \<open>
  The constructor of \<open>PendingInterest\<close>, with the reading of the clock as its last
  argument.
\<close>

definition PendingInterest_new ::
  "64 word \<Rightarrow> Interest \<Rightarrow> callback option \<Rightarrow> callback option \<Rightarrow> int \<Rightarrow> PendingInterest" where
  "PendingInterest_new pendingInterestId interest onData onTimeout now =
     \<lparr>getPendingInterestId = pendingInterestId, getInterest = interest,
      getOnData = onData, getOnTimeout = onTimeout,
      timeoutTimeMilliseconds =
        (if getInterestLifetime interest \<ge> 0 then i64 (now + getInterestLifetime interest)
         else i64 (now + 4000))\<rparr>"

text \<open>
  Modelled from the spec: \<open>isTimedOut\<close> is declared outside the sources; an entry is
  swept when its deadline is at most the current time.
\<close>

definition isTimedOut :: "PendingInterest \<Rightarrow> int \<Rightarrow> bool" where
  "isTimedOut p now = (timeoutTimeMilliseconds p \<le> now)"

text \<open>
  Modelled from the spec: \<open>getNextPendingInterestId\<close> is declared outside the sources;
  it allocates a new id from the static counter \<open>lastPendingInterestId_\<close>, which
  \<open>node.cpp\<close> initialises to 0.  The counter is a \<open>uint64_t\<close>.
\<close>

definition getNextPendingInterestId :: "'tr Node \<Rightarrow> 64 word \<times> 'tr Node" where
  "getNextPendingInterestId n =
     (lastPendingInterestId n + 1, n\<lparr>lastPendingInterestId := lastPendingInterestId n + 1\<rparr>)"

text \<open>
  \<open>Node::expressInterest\<close>.  The result is the exception that leaves the function or
  the id it returns, and the node at that moment.
\<close>

definition expressInterest ::
  "'tr Env \<Rightarrow> Interest \<Rightarrow> callback option \<Rightarrow> callback option \<Rightarrow> 'tr Node
     \<Rightarrow> (exn + 64 word) \<times> 'tr Node" where
  "expressInterest E interest onData onTimeout n =
     (let (c, t1) = (if \<not> isConnected E (transport n) then connect E (transport n)
                     else (None, transport n));
          n1 = n\<lparr>transport := t1\<rparr>
      in case c of
           Some e \<Rightarrow> (Inl e, n1)
         | None \<Rightarrow>
             (let (pendingInterestId, n2) = getNextPendingInterestId n1;
                  n3 = n2\<lparr>pendingInterestTable := pendingInterestTable n2 @
                         [PendingInterest_new pendingInterestId interest onData onTimeout
                            (nowMilliseconds n2)]\<rparr>;
                  (s, t2) = send E (transport n3) (interestWireEncode E interest);
                  n4 = n3\<lparr>transport := t2\<rparr>
              in case s of
                   Some e \<Rightarrow> (Inl e, n4)
                 | None \<Rightarrow> (Inr pendingInterestId, n4)))"

text \<open>
  \<open>Node::removePendingInterest\<close>: the loop runs \<open>i\<close> from the size of the table minus
  one down to 0; the argument \<open>Suc i\<close> of the loop function is \<open>i + 1\<close>.  The source
  keeps \<open>i\<close> in an \<open>int\<close>; the size of a table is taken to fit in one.
\<close>

fun removePendingInterest_loop ::
  "nat \<Rightarrow> 64 word \<Rightarrow> PendingInterest list \<Rightarrow> PendingInterest list" where
  "removePendingInterest_loop 0 pendingInterestId tbl = tbl"
| "removePendingInterest_loop (Suc i) pendingInterestId tbl =
     removePendingInterest_loop i pendingInterestId
       (if getPendingInterestId (tbl ! i) = pendingInterestId then erase tbl i else tbl)"

definition removePendingInterest :: "64 word \<Rightarrow> 'tr Node \<Rightarrow> 'tr Node" where
  "removePendingInterest pendingInterestId n =
     n\<lparr>pendingInterestTable :=
         removePendingInterest_loop (length (pendingInterestTable n)) pendingInterestId
           (pendingInterestTable n)\<rparr>"

text \<open>
  \<open>PendingInterest::callTimeout\<close>: the callback is called when there is one, and
  every exception is ignored.  The result is the exception that leaves the function,
  the calls made, and the node afterwards.
\<close>

definition callTimeout ::
  "'tr Env \<Rightarrow> PendingInterest \<Rightarrow> 'tr Node \<Rightarrow> exn option \<times> call list \<times> 'tr Node" where
  "callTimeout E p n =
     (case getOnTimeout p of
        None \<Rightarrow> (None, [], n)
      | Some cb \<Rightarrow>
          (let (x, n') = app E (OnTimeoutCall cb (getInterest p)) n
           in (None, [OnTimeoutCall cb (getInterest p)], n')))"

text \<open>
  \<open>Node::checkPitExpire\<close>: the loop runs backwards over the indices of the table as
  it was when the loop started, and reads the clock again after each callback.  A
  callback may have changed the table; reading the vector at an index that is no longer
  in it has no defined behaviour, which is the result \<open>None\<close>.  Arming the timer
  again for 100 ms, the last step of the function, is outside the model.
\<close>

fun checkPitExpire_loop ::
  "'tr Env \<Rightarrow> nat \<Rightarrow> int \<Rightarrow> 'tr Node \<Rightarrow> (call list \<times> 'tr Node) option" where
  "checkPitExpire_loop E 0 now n = Some ([], n)"
| "checkPitExpire_loop E (Suc i) now n =
     (if i < length (pendingInterestTable n) then
        (if isTimedOut (pendingInterestTable n ! i) now then
           (let pendingInterest = pendingInterestTable n ! i;
                n1 = n\<lparr>pendingInterestTable := erase (pendingInterestTable n) i\<rparr>;
                r = callTimeout E pendingInterest n1;
                n2 = snd (snd r)
            in case checkPitExpire_loop E i (nowMilliseconds n2) n2 of
                 None \<Rightarrow> None
               | Some (cs, n3) \<Rightarrow> Some (fst (snd r) @ cs, n3))
         else checkPitExpire_loop E i now n)
      else None)"

definition checkPitExpire :: "'tr Env \<Rightarrow> 'tr Node \<Rightarrow> (call list \<times> 'tr Node) option" where
  "checkPitExpire E n =
     checkPitExpire_loop E (length (pendingInterestTable n)) (nowMilliseconds n) n"

section \<open>The registered prefix table\<close>

text \<open>
  \<open>Node::registerPrefixHelper\<close>.  The argument \<open>onRegisterFailed\<close> is not used by
  the function.
\<close>

definition registerPrefixHelper ::
  "'tr Env \<Rightarrow> 64 word \<Rightarrow> Name \<Rightarrow> callback option \<Rightarrow> callback option \<Rightarrow> nat \<Rightarrow> 'tr Node
     \<Rightarrow> exn option \<times> 'tr Node" where
  "registerPrefixHelper E registeredPrefixId prefix onInterest onRegisterFailed flags n =
     (let forwardingEntry =
            \<lparr>getAction = ''selfreg'', getEntryPrefix = prefix, getFaceId = - 1,
             getForwardingFlags = flags, getFreshnessPeriod = - 1\<rparr>;
          content = forwardingEntryWireEncode E forwardingEntry;
          data = Data_default\<lparr>getContent := content\<rparr>;
          data = data\<lparr>getSignature := SignatureSha256WithRsa []\<rparr>;
          interestName = [] @ [''ndnx''];
          interestName = interestName @ [ndndId n];
          interestName = interestName @ [''selfreg''];
          interestName = interestName @ [dataWireEncode E data];
          interest = setScope 1 (Interest_of_name interestName);
          n1 = n\<lparr>registeredPrefixTable := registeredPrefixTable n @
                 [\<lparr>getRegisteredPrefixId = registeredPrefixId, getPrefix = prefix,
                   getOnInterest = onInterest\<rparr>]\<rparr>;
          (s, t) = send E (transport n1) (interestWireEncode E interest)
      in (s, n1\<lparr>transport := t\<rparr>))"

text \<open>
  \<open>Node::getEntryForRegisteredPrefix\<close>: the iterator is the index of the entry,
  \<open>None\<close> being \<open>end()\<close>.  The loop function takes the entries still to visit and the
  index of the first of them.
\<close>

fun getEntryForRegisteredPrefix_loop ::
  "RegisteredPrefix list \<Rightarrow> RegisteredPrefix list \<Rightarrow> nat \<Rightarrow> nat option \<Rightarrow> nat option" where
  "getEntryForRegisteredPrefix_loop tbl [] i longestPrefix = longestPrefix"
| "getEntryForRegisteredPrefix_loop tbl (e # es) i longestPrefix =
     getEntryForRegisteredPrefix_loop tbl es (Suc i)
       (case longestPrefix of
          None \<Rightarrow> Some i
        | Some l \<Rightarrow>
            if length (getPrefix e) > length (getPrefix (tbl ! l)) then Some i
            else longestPrefix)"

definition getEntryForRegisteredPrefix :: "RegisteredPrefix list \<Rightarrow> Name \<Rightarrow> nat option" where
  "getEntryForRegisteredPrefix tbl nm = getEntryForRegisteredPrefix_loop tbl tbl 0 None"

section \<open>The receive dispatcher\<close>

text \<open>
  \<open>Node::getEntryIndexForExpressedInterest\<close>: the index of the first entry whose
  Interest matches the name, \<open>None\<close> being \<open>end()\<close>.
\<close>

fun getEntryIndexForExpressedInterest :: "PendingInterest list \<Rightarrow> Name \<Rightarrow> nat option" where
  "getEntryIndexForExpressedInterest [] nm = None"
| "getEntryIndexForExpressedInterest (e # es) nm =
     (if matchesName (getInterest e) nm then Some 0
      else map_option Suc (getEntryIndexForExpressedInterest es nm))"

text \<open>Calling a function object: the empty one throws.\<close>

definition invoke ::
  "'tr Env \<Rightarrow> callback option \<Rightarrow> (callback \<Rightarrow> call) \<Rightarrow> 'tr Node
     \<Rightarrow> exn option \<times> call list \<times> 'tr Node" where
  "invoke E f c n =
     (case f of
        None \<Rightarrow> (Some bad_function_call, [], n)
      | Some cb \<Rightarrow> (let (x, n') = app E (c cb) n in (x, [c cb], n')))"

text \<open>
  \<open>Node::onReceiveElement\<close>.  The result is the exception that leaves the function,
  the calls made, and the node afterwards.
\<close>

definition onReceiveElement ::
  "'tr Env \<Rightarrow> Block \<Rightarrow> 'tr Node \<Rightarrow> exn option \<times> call list \<times> 'tr Node" where
  "onReceiveElement E block n =
     (case block of
        InterestBlock interest \<Rightarrow>
          (case getEntryForRegisteredPrefix (registeredPrefixTable n) (getName interest) of
             None \<Rightarrow> (None, [], n)
           | Some i \<Rightarrow>
               (let entry = registeredPrefixTable n ! i
                in invoke E (getOnInterest entry)
                     (\<lambda>cb. OnInterestCall cb (getPrefix entry) interest
                             (getRegisteredPrefixId entry)) n))
      | DataBlock data \<Rightarrow>
          (case getEntryIndexForExpressedInterest (pendingInterestTable n) (getDataName data) of
             None \<Rightarrow> (None, [], n)
           | Some i \<Rightarrow>
               (let entry = pendingInterestTable n ! i;
                    onData = getOnData entry;
                    interest = getInterest entry;
                    n1 = n\<lparr>pendingInterestTable := erase (pendingInterestTable n) i\<rparr>
                in invoke E onData (\<lambda>cb. OnDataCall cb interest data) n1))
      | OtherBlock \<Rightarrow> (None, [], n))"

section \<open>The application and a run of the process\<close>

text \<open>
  What the application does to the pending interest table, from outside or from within
  a callback: it calls \<open>expressInterest\<close> or \<open>removePendingInterest\<close>, or it lets
  time pass.  An action gives the results of the calls of \<open>expressInterest\<close> it
  makes (the exception thrown or the id returned) and the node afterwards.
\<close>

datatype action =
    CallExpressInterest Interest "callback option" "callback option"
  | CallRemovePendingInterest "64 word"
  | Elapse nat

fun act :: "'tr Env \<Rightarrow> action \<Rightarrow> 'tr Node \<Rightarrow> (exn + 64 word) list \<times> 'tr Node" where
  "act T (CallExpressInterest interest onData onTimeout) n =
     (let (r, n') = expressInterest T interest onData onTimeout n in ([r], n'))"
| "act T (CallRemovePendingInterest pendingInterestId) n =
     ([], removePendingInterest pendingInterestId n)"
| "act T (Elapse d) n = ([], n\<lparr>nowMilliseconds := nowMilliseconds n + int d\<rparr>)"

fun perform ::
  "'tr Env \<Rightarrow> action list \<Rightarrow> 'tr Node \<Rightarrow> (exn + 64 word) list \<times> 'tr Node" where
  "perform T [] n = ([], n)"
| "perform T (a # as) n =
     (let (rs, n1) = act T a n;
          (rs', n2) = perform T as n1
      in (rs @ rs', n2))"

text \<open>
  An application given by what each of its callbacks does when it is called on a node:
  the actions it performs, in order, and the exception it ends with, if any.
  \<open>scripted T A\<close> is the environment with the transport and codec of \<open>T\<close> and this
  application.
\<close>

type_synonym 'tr script = "call \<Rightarrow> 'tr Node \<Rightarrow> action list \<times> exn option"

definition scripted :: "'tr Env \<Rightarrow> 'tr script \<Rightarrow> 'tr Env" where
  "scripted T A = T\<lparr>app := \<lambda>c m. (snd (A c m), snd (perform T (fst (A c m)) m))\<rparr>"

text \<open>
  The loop of \<open>checkPitExpire\<close> once more, for a scripted application, giving the
  results of the calls of \<open>expressInterest\<close> that the timeout callbacks make; the
  nodes are those of \<open>checkPitExpire_loop\<close>.
\<close>

fun checkPitExpire_results ::
  "'tr Env \<Rightarrow> 'tr script \<Rightarrow> nat \<Rightarrow> int \<Rightarrow> 'tr Node
     \<Rightarrow> ((exn + 64 word) list \<times> 'tr Node) option" where
  "checkPitExpire_results T A 0 now n = Some ([], n)"
| "checkPitExpire_results T A (Suc i) now n =
     (if i < length (pendingInterestTable n) then
        (if isTimedOut (pendingInterestTable n ! i) now then
           (let pendingInterest = pendingInterestTable n ! i;
                n1 = n\<lparr>pendingInterestTable := erase (pendingInterestTable n) i\<rparr>;
                rs = (case getOnTimeout pendingInterest of
                        None \<Rightarrow> []
                      | Some cb \<Rightarrow>
                          fst (perform T
                                (fst (A (OnTimeoutCall cb (getInterest pendingInterest)) n1))
                                n1));
                n2 = snd (snd (callTimeout (scripted T A) pendingInterest n1))
            in case checkPitExpire_results T A i (nowMilliseconds n2) n2 of
                 None \<Rightarrow> None
               | Some (rs', n3) \<Rightarrow> Some (rs @ rs', n3))
         else checkPitExpire_results T A i now n)
      else None)"

text \<open>
  What happens in a process, step by step: the application acts, the timer fires and
  \<open>checkPitExpire\<close> runs, or the process constructs a new node and goes on with it.
  \<open>expressInterest_results\<close> lists the results of all calls of \<open>expressInterest\<close>
  along a sequence of steps, those made from within the timeout callbacks included, in
  the order in which the calls return; nothing is known after a sweep without defined
  behaviour.  \<open>returned_ids\<close> are the ids among these results.
\<close>

datatype 'tr step = Application action | TimerFires | NewNode 'tr

fun expressInterest_results ::
  "'tr Env \<Rightarrow> 'tr script \<Rightarrow> 'tr step list \<Rightarrow> 'tr Node \<Rightarrow> (exn + 64 word) list" where
  "expressInterest_results T A [] n = []"
| "expressInterest_results T A (Application a # ss) n =
     (let (rs, n') = act T a n in rs @ expressInterest_results T A ss n')"
| "expressInterest_results T A (TimerFires # ss) n =
     (case checkPitExpire_results T A (length (pendingInterestTable n)) (nowMilliseconds n) n of
        None \<Rightarrow> []
      | Some (rs, n') \<Rightarrow> rs @ expressInterest_results T A ss n')"
| "expressInterest_results T A (NewNode t # ss) n =
     expressInterest_results T A ss
       (Node_new t (lastPendingInterestId n) (lastRegisteredPrefixId n) (nowMilliseconds n))"

fun ids_of :: "(exn + 64 word) list \<Rightarrow> 64 word list" where
  "ids_of [] = []"
| "ids_of (Inl e # rs) = ids_of rs"
| "ids_of (Inr pendingInterestId # rs) = pendingInterestId # ids_of rs"

definition returned_ids ::
  "'tr Env \<Rightarrow> 'tr script \<Rightarrow> 'tr step list \<Rightarrow> 'tr Node \<Rightarrow> 64 word list" where
  "returned_ids T A ss n = ids_of (expressInterest_results T A ss n)"

section \<open>Notions used to state the properties\<close>

text \<open>The timeout calls that a list of entries gives rise to, entry by entry.\<close>

definition timeoutCalls :: "PendingInterest list \<Rightarrow> call list" where
  "timeoutCalls ps =
     concat (map (\<lambda>p. case getOnTimeout p of None \<Rightarrow> []
                      | Some cb \<Rightarrow> [OnTimeoutCall cb (getInterest p)]) ps)"

text \<open>
  An application whose timeout callbacks remove nothing from the pending interest table
  (what was in the table when the callback was called is still there, in place, when it
  returns; new entries may follow) and do not set the clock back.
\<close>

definition timeout_callbacks_only_append :: "'tr Env \<Rightarrow> bool" where
  "timeout_callbacks_only_append E =
     (\<forall>cb i m.
        take (length (pendingInterestTable m))
          (pendingInterestTable (snd (app E (OnTimeoutCall cb i) m))) = pendingInterestTable m \<and>
        nowMilliseconds m \<le> nowMilliseconds (snd (app E (OnTimeoutCall cb i) m)))"

text \<open>
  The results \<open>rs\<close> of calls of \<open>expressInterest\<close> made while the id counter went
  from \<open>c\<close> to \<open>c'\<close>: the counter went up by at most one for each call, without
  wrapping around, and the ids returned are increasing, above \<open>c\<close> and at most \<open>c'\<close>.
\<close>

definition fresh_from :: "64 word \<Rightarrow> (exn + 64 word) list \<Rightarrow> 64 word \<Rightarrow> bool" where
  "fresh_from c rs c' =
     (unat c \<le> unat c' \<and> unat c' \<le> unat c + length rs \<and>
      sorted_wrt (<) (ids_of rs) \<and> list_all (\<lambda>x. c < x \<and> x \<le> c') (ids_of rs))"

text \<open>The same application, with every exception of a callback taken away.\<close>

definition without_exceptions :: "'tr Env \<Rightarrow> 'tr Env" where
  "without_exceptions E = E\<lparr>app := \<lambda>c m. (None, snd (app E c m))\<rparr>"

text \<open>
  Entry \<open>l\<close> of the table has the greatest number of components of the whole table,
  and every entry before it has fewer.
\<close>

definition first_longest :: "RegisteredPrefix list \<Rightarrow> nat \<Rightarrow> bool" where
  "first_longest tbl l =
     (l < length tbl \<and>
      list_all (\<lambda>e. length (getPrefix e) \<le> length (getPrefix (tbl ! l))) tbl \<and>
      list_all (\<lambda>e. length (getPrefix e) < length (getPrefix (tbl ! l))) (take l tbl))"

section \<open>Example states\<close>

text \<open>
  A transport that is connected and records what it sends, a codec that keeps one field
  of each packet, and an application whose callbacks do nothing; the same with a
  transport whose \<open>send\<close> throws; the same with callbacks that throw.
\<close>

definition quiet_env :: "string list Env" where
  "quiet_env =
     \<lparr>isConnected = (\<lambda>t. True), connect = (\<lambda>t. (None, t)),
      send = (\<lambda>t w. (None, t @ [w])),
      interestWireEncode = (\<lambda>i. concat (getName i)), dataWireEncode = getContent,
      forwardingEntryWireEncode = getAction,
      app = (\<lambda>c m. (None, m))\<rparr>"

definition failing_send_env :: "string list Env" where
  "failing_send_env = quiet_env\<lparr>send := \<lambda>t w. (Some (TransportException 0), t)\<rparr>"

definition throwing_env :: "string list Env" where
  "throwing_env = quiet_env\<lparr>app := \<lambda>c m. (Some (AppException 0), m)\<rparr>"

definition interest_x :: Interest where
  "interest_x = \<lparr>getName = [''x''], getInterestLifetime = 150, getScope = - 1\<rparr>"

definition interest_ab :: Interest where
  "interest_ab = \<lparr>getName = [''a'', ''b''], getInterestLifetime = - 1, getScope = - 1\<rparr>"

definition interest_a :: Interest where
  "interest_a = \<lparr>getName = [''a''], getInterestLifetime = 1000, getScope = - 1\<rparr>"

definition interest_ax :: Interest where
  "interest_ax = \<lparr>getName = [''a'', ''x''], getInterestLifetime = - 1, getScope = - 1\<rparr>"

definition data_abc :: Data where
  "data_abc = \<lparr>getDataName = [''a'', ''b'', ''c''], getContent = ''hello'',
                getSignature = NoSignature\<rparr>"

definition data_z :: Data where
  "data_z = \<lparr>getDataName = [''z''], getContent = [], getSignature = NoSignature\<rparr>"

text \<open>
  Three pending interests expressed at time 0, for \<open>/x\<close> (150 ms), \<open>/a/b\<close> (no
  lifetime) and \<open>/a\<close> (1000 ms), in this order.
\<close>

definition pending_x :: PendingInterest where
  "pending_x = PendingInterest_new 1 interest_x (Some 1) (Some 11) 0"

definition pending_ab :: PendingInterest where
  "pending_ab = PendingInterest_new 2 interest_ab (Some 2) (Some 12) 0"

definition pending_a :: PendingInterest where
  "pending_a = PendingInterest_new 3 interest_a (Some 3) (Some 13) 0"

text \<open>Two registered prefixes, \<open>/a\<close> and then \<open>/a/b\<close>.\<close>

definition registered_a :: RegisteredPrefix where
  "registered_a = \<lparr>getRegisteredPrefixId = 1, getPrefix = [''a''], getOnInterest = Some 21\<rparr>"

definition registered_ab :: RegisteredPrefix where
  "registered_ab =
     \<lparr>getRegisteredPrefixId = 2, getPrefix = [''a'', ''b''], getOnInterest = Some 22\<rparr>"

text \<open>
  A fourth pending interest, for \<open>/l\<close> with a lifetime of 3000 ms, expressed at
  time 0.
\<close>

definition interest_late :: Interest where
  "interest_late = \<lparr>getName = [''l''], getInterestLifetime = 3000, getScope = - 1\<rparr>"

definition pending_late :: PendingInterest where
  "pending_late = PendingInterest_new 4 interest_late (Some 4) (Some 14) 0"

text \<open>A node holding these entries, at time 2000.\<close>

definition example_node :: "string list Node" where
  "example_node =
     \<lparr>transport = [], pendingInterestTable = [pending_x, pending_ab, pending_a],
      registeredPrefixTable = [registered_a, registered_ab], ndndId = ''hub'',
      lastPendingInterestId = 3, lastRegisteredPrefixId = 2, nowMilliseconds = 2000\<rparr>"

text \<open>The same node with the table \<open>/l\<close>, \<open>/a\<close>.\<close>

definition late_node :: "string list Node" where
  "late_node = example_node\<lparr>pendingInterestTable := [pending_late, pending_a]\<rparr>"

text \<open>
  Three more applications on the quiet transport: callbacks that take 1500 ms and do
  nothing else; timeout callbacks that take 1500 ms and then express their Interest
  again; timeout callbacks that cancel the pending interest with id 1.
\<close>

definition slow_env :: "string list Env" where
  "slow_env =
     quiet_env\<lparr>app := \<lambda>c m. (None, m\<lparr>nowMilliseconds := nowMilliseconds m + 1500\<rparr>)\<rparr>"

definition retransmit_script :: "string list script" where
  "retransmit_script c m =
     (case c of
        OnTimeoutCall cb i \<Rightarrow> ([Elapse 1500, CallExpressInterest i (Some cb) (Some cb)], None)
      | _ \<Rightarrow> ([], None))"

definition retransmit_env :: "string list Env" where
  "retransmit_env = scripted quiet_env retransmit_script"

definition cancelling_env :: "string list Env" where
  "cancelling_env =
     quiet_env\<lparr>app := \<lambda>c m. case c of
                               OnTimeoutCall cb i \<Rightarrow> (None, removePendingInterest 1 m)
                             | _ \<Rightarrow> (None, m)\<rparr>"

lemmas example_defs =
  quiet_env_def failing_send_env_def throwing_env_def interest_x_def interest_ab_def
  interest_a_def interest_ax_def data_abc_def data_z_def pending_x_def pending_ab_def
  pending_a_def registered_a_def registered_ab_def example_node_def
  PendingInterest_new_def Node_new_def first_Node_def initial_lastPendingInterestId_def
  initial_lastRegisteredPrefixId_def i64_def interest_late_def pending_late_def
  late_node_def slow_env_def retransmit_script_def retransmit_env_def cancelling_env_def
  scripted_def

section \<open>Removing entries by id\<close>

lemma removePendingInterest_loop_filter:
  "k \<le> length tbl \<Longrightarrow>
   removePendingInterest_loop k pid tbl =
     filter (\<lambda>e. getPendingInterestId e \<noteq> pid) (take k tbl) @ drop k tbl"
proof (induction k arbitrary: tbl)
  case 0
  then show ?case by simp
next
  case (Suc k)
  then have k: "k < length tbl" by simp
  show ?case
  proof (cases "getPendingInterestId (tbl ! k) = pid")
    case True
    have "k \<le> length (erase tbl k)" using k by (simp add: erase_def)
    from Suc.IH [OF this] True k show ?thesis
      by (simp add: erase_def take_Suc_conv_app_nth)
  next
    case False
    from Suc.IH [of tbl] False k show ?thesis
      by (simp add: take_Suc_conv_app_nth Cons_nth_drop_Suc)
  qed
qed

lemma removePendingInterest_eq:
  "removePendingInterest pid n =
     n\<lparr>pendingInterestTable :=
         filter (\<lambda>e. getPendingInterestId e \<noteq> pid) (pendingInterestTable n)\<rparr>"
  by (simp add: removePendingInterest_def removePendingInterest_loop_filter)

text \<open>
  C8: for every id and every table, \<open>removePendingInterest\<close> removes exactly the
  entries with this id (the others stay, in their order, and nothing else of the node
  changes); it is a total function, so it cannot fail; a second call with the same id
  changes nothing; and when no entry has the id, because none was ever inserted or
  because the entry is gone after its Data or its timeout, the node is unchanged.
\<close>

theorem removePendingInterest_removes_all_idempotent:
  "removePendingInterest pid n =
     n\<lparr>pendingInterestTable :=
         filter (\<lambda>e. getPendingInterestId e \<noteq> pid) (pendingInterestTable n)\<rparr>
   \<and> pid \<notin> getPendingInterestId ` set (pendingInterestTable (removePendingInterest pid n))
   \<and> removePendingInterest pid (removePendingInterest pid n) = removePendingInterest pid n
   \<and> (pid \<notin> getPendingInterestId ` set (pendingInterestTable n) \<longrightarrow>
        removePendingInterest pid n = n)"
proof -
  have "pid \<notin> getPendingInterestId ` set (pendingInterestTable n) \<Longrightarrow>
        filter (\<lambda>e. getPendingInterestId e \<noteq> pid) (pendingInterestTable n) =
          pendingInterestTable n"
    by (rule filter_True) auto
  then show ?thesis by (auto simp add: removePendingInterest_eq)
qed

theorem removePendingInterest_removes_all_idempotent_witness:
  "pendingInterestTable (removePendingInterest 2 example_node) = [pending_x, pending_a]
   \<and> removePendingInterest 2 (removePendingInterest 2 example_node) =
       removePendingInterest 2 example_node
   \<and> 9 \<notin> getPendingInterestId ` set (pendingInterestTable example_node)
   \<and> removePendingInterest 9 example_node = example_node"
  using removePendingInterest_removes_all_idempotent [of 2 example_node]
    removePendingInterest_removes_all_idempotent [of 9 example_node]
  by (simp add: example_defs removePendingInterest_def erase_def)

section \<open>The sweep of the pending interest table\<close>

lemma callTimeout_calls: "fst (snd (callTimeout E p n)) = timeoutCalls [p]"
  by (simp add: callTimeout_def timeoutCalls_def split: option.split prod.split)

lemma callTimeout_only_appends:
  assumes "timeout_callbacks_only_append E"
  shows "take (length (pendingInterestTable n))
           (pendingInterestTable (snd (snd (callTimeout E p n)))) = pendingInterestTable n"
    and "nowMilliseconds n \<le> nowMilliseconds (snd (snd (callTimeout E p n)))"
proof -
  have a: "\<And>cb i. take (length (pendingInterestTable n))
             (pendingInterestTable (snd (app E (OnTimeoutCall cb i) n))) = pendingInterestTable n"
    and b: "\<And>cb i. nowMilliseconds n \<le> nowMilliseconds (snd (app E (OnTimeoutCall cb i) n))"
    using assms by (simp_all add: timeout_callbacks_only_append_def)
  show "take (length (pendingInterestTable n))
           (pendingInterestTable (snd (snd (callTimeout E p n)))) = pendingInterestTable n"
  proof (cases "getOnTimeout p")
    case None
    then show ?thesis by (simp add: callTimeout_def)
  next
    case (Some cb)
    with a [of cb "getInterest p"] show ?thesis
      by (simp add: callTimeout_def split: prod.split) (metis snd_conv)
  qed
  show "nowMilliseconds n \<le> nowMilliseconds (snd (snd (callTimeout E p n)))"
  proof (cases "getOnTimeout p")
    case None
    then show ?thesis by (simp add: callTimeout_def)
  next
    case (Some cb)
    with b [of cb "getInterest p"] show ?thesis
      by (simp add: callTimeout_def split: prod.split) (metis snd_conv)
  qed
qed

lemma nths_cong_below:
  assumes "\<And>i. i < length xs \<Longrightarrow> (i \<in> A) = (i \<in> B)"
  shows "nths xs A = nths xs B"
proof -
  have "filter (\<lambda>p. snd p \<in> A) (zip xs [0..<length xs]) =
        filter (\<lambda>p. snd p \<in> B) (zip xs [0..<length xs])"
    by (rule filter_cong [OF refl]) (auto simp add: set_zip assms)
  then show ?thesis by (simp add: nths_def)
qed

lemma nths_take_Suc:
  "k < length xs \<Longrightarrow>
   nths (take (Suc k) xs) A = nths (take k xs) A @ (if k \<in> A then [xs ! k] else [])"
  by (simp add: take_Suc_conv_app_nth nths_append)

lemma checkPitExpire_loop_sweep:
  assumes H: "timeout_callbacks_only_append E"
  shows "k \<le> length (pendingInterestTable n) \<Longrightarrow>
     \<exists>R added n'.
        checkPitExpire_loop E k (nowMilliseconds n) n =
          Some (timeoutCalls (rev (nths (take k (pendingInterestTable n)) R)), n')
      \<and> pendingInterestTable n' =
          nths (take k (pendingInterestTable n)) (- R) @ drop k (pendingInterestTable n) @ added
      \<and> R \<subseteq> {..<k}
      \<and> (\<forall>i<k. timeoutTimeMilliseconds (pendingInterestTable n ! i) \<le> nowMilliseconds n
             \<longrightarrow> i \<in> R)
      \<and> (\<forall>i\<in>R. timeoutTimeMilliseconds (pendingInterestTable n ! i) \<le> nowMilliseconds n')
      \<and> nowMilliseconds n \<le> nowMilliseconds n'"
proof (induction k arbitrary: n)
  case 0
  have "checkPitExpire_loop E 0 (nowMilliseconds n) n =
          Some (timeoutCalls (rev (nths (take 0 (pendingInterestTable n)) {})), n)
      \<and> pendingInterestTable n =
          nths (take 0 (pendingInterestTable n)) (- {}) @ drop 0 (pendingInterestTable n) @ []
      \<and> {} \<subseteq> {..<(0::nat)}
      \<and> (\<forall>i<0. timeoutTimeMilliseconds (pendingInterestTable n ! i) \<le> nowMilliseconds n
             \<longrightarrow> i \<in> {})
      \<and> (\<forall>i\<in>{}. timeoutTimeMilliseconds (pendingInterestTable n ! i) \<le> nowMilliseconds n)
      \<and> nowMilliseconds n \<le> nowMilliseconds n"
    by (simp add: timeoutCalls_def)
  then show ?case by blast
next
  case (Suc k)
  let ?tbl = "pendingInterestTable n"
  let ?now = "nowMilliseconds n"
  let ?dl = "\<lambda>i. timeoutTimeMilliseconds (?tbl ! i)"
  from Suc.prems have k: "k < length ?tbl" by simp
  show ?case
  proof (cases "isTimedOut (?tbl ! k) ?now")
    case False
    then have late: "\<not> ?dl k \<le> ?now" by (simp add: isTimedOut_def)
    from Suc.IH [of n] k obtain R added n' where
      r: "checkPitExpire_loop E k ?now n = Some (timeoutCalls (rev (nths (take k ?tbl) R)), n')"
      and t: "pendingInterestTable n' = nths (take k ?tbl) (- R) @ drop k ?tbl @ added"
      and R: "R \<subseteq> {..<k}"
      and ex: "\<forall>i<k. ?dl i \<le> ?now \<longrightarrow> i \<in> R"
      and dl: "\<forall>i\<in>R. ?dl i \<le> nowMilliseconds n'"
      and c: "?now \<le> nowMilliseconds n'"
      by auto
    from R have kR: "k \<notin> R" by auto
    have 1: "checkPitExpire_loop E (Suc k) ?now n =
               Some (timeoutCalls (rev (nths (take (Suc k) ?tbl) R)), n')"
      using False k r kR by (simp add: nths_take_Suc)
    have 2: "pendingInterestTable n' =
               nths (take (Suc k) ?tbl) (- R) @ drop (Suc k) ?tbl @ added"
      using k t kR by (simp add: nths_take_Suc Cons_nth_drop_Suc)
    have 3: "R \<subseteq> {..<Suc k}" using R by auto
    have 4: "\<forall>i<Suc k. ?dl i \<le> ?now \<longrightarrow> i \<in> R"
      using ex late by (auto simp add: less_Suc_eq)
    from 1 2 3 4 dl c show ?thesis by blast
  next
    case True
    then have due: "?dl k \<le> ?now" by (simp add: isTimedOut_def)
    define n1 where "n1 = n\<lparr>pendingInterestTable := erase ?tbl k\<rparr>"
    define n2 where "n2 = snd (snd (callTimeout E (?tbl ! k) n1))"
    define add1 where "add1 = drop (length (pendingInterestTable n1)) (pendingInterestTable n2)"
    have t1: "pendingInterestTable n1 = take k ?tbl @ drop (Suc k) ?tbl"
      and c1: "nowMilliseconds n1 = ?now"
      by (simp_all add: n1_def erase_def)
    have "take (length (pendingInterestTable n1)) (pendingInterestTable n2) =
            pendingInterestTable n1"
      unfolding n2_def by (rule callTimeout_only_appends [OF H])
    then have "pendingInterestTable n2 = pendingInterestTable n1 @ add1"
      unfolding add1_def by (metis append_take_drop_id)
    then have t2: "pendingInterestTable n2 = take k ?tbl @ drop (Suc k) ?tbl @ add1"
      by (simp add: t1)
    have c2: "?now \<le> nowMilliseconds n2"
      using callTimeout_only_appends(2) [OF H, of n1 "?tbl ! k"] by (simp add: n2_def c1)
    have lk: "length (take k ?tbl) = k" using k by simp
    have tk: "take k (pendingInterestTable n2) = take k ?tbl"
      using lk by (simp add: t2)
    have dk: "drop k (pendingInterestTable n2) = drop (Suc k) ?tbl @ add1"
      using lk by (simp add: t2)
    have nth2: "\<And>i. i < k \<Longrightarrow> pendingInterestTable n2 ! i = ?tbl ! i"
      using lk by (simp add: t2 nth_append)
    have "k \<le> length (pendingInterestTable n2)" using lk by (simp add: t2)
    from Suc.IH [OF this] obtain R added n' where
      r: "checkPitExpire_loop E k (nowMilliseconds n2) n2 =
            Some (timeoutCalls (rev (nths (take k ?tbl) R)), n')"
      and t: "pendingInterestTable n' =
            nths (take k ?tbl) (- R) @ (drop (Suc k) ?tbl @ add1) @ added"
      and R: "R \<subseteq> {..<k}"
      and ex: "\<forall>i<k. timeoutTimeMilliseconds (pendingInterestTable n2 ! i) \<le> nowMilliseconds n2
                 \<longrightarrow> i \<in> R"
      and dl: "\<forall>i\<in>R. timeoutTimeMilliseconds (pendingInterestTable n2 ! i) \<le> nowMilliseconds n'"
      and c: "nowMilliseconds n2 \<le> nowMilliseconds n'"
      unfolding tk dk by blast
    have same: "nths (take k ?tbl) (insert k R) = nths (take k ?tbl) R"
      by (rule nths_cong_below) (simp add: lk)
    have same': "nths (take k ?tbl) (- insert k R) = nths (take k ?tbl) (- R)"
      by (rule nths_cong_below) (simp add: lk)
    have "checkPitExpire_loop E (Suc k) ?now n =
          Some (timeoutCalls [?tbl ! k] @ timeoutCalls (rev (nths (take k ?tbl) R)), n')"
      using True k r
      by (simp add: Let_def n1_def [symmetric] n2_def [symmetric] callTimeout_calls)
    then have 1: "checkPitExpire_loop E (Suc k) ?now n =
          Some (timeoutCalls (rev (nths (take (Suc k) ?tbl) (insert k R))), n')"
      using k by (simp add: nths_take_Suc same timeoutCalls_def)
    have 2: "pendingInterestTable n' =
          nths (take (Suc k) ?tbl) (- insert k R) @ drop (Suc k) ?tbl @ (add1 @ added)"
      using k t by (simp add: nths_take_Suc same')
    have 3: "insert k R \<subseteq> {..<Suc k}" using R by auto
    have 4: "\<forall>i<Suc k. ?dl i \<le> ?now \<longrightarrow> i \<in> insert k R"
    proof (intro allI impI)
      fix i assume i: "i < Suc k" and d: "?dl i \<le> ?now"
      show "i \<in> insert k R"
      proof (cases "i = k")
        case True
        then show ?thesis by simp
      next
        case False
        with i have ik: "i < k" by simp
        with d c2 nth2 [OF ik] ex show ?thesis by auto
      qed
    qed
    have 5: "\<forall>i\<in>insert k R. ?dl i \<le> nowMilliseconds n'"
    proof
      fix i assume i: "i \<in> insert k R"
      show "?dl i \<le> nowMilliseconds n'"
      proof (cases "i = k")
        case True
        with due c2 c show ?thesis by simp
      next
        case False
        with i R have "i \<in> R" "i < k" by auto
        with dl nth2 show ?thesis by auto
      qed
    qed
    have 6: "?now \<le> nowMilliseconds n'" using c2 c by simp
    from 1 2 3 4 5 6 show ?thesis by blast
  qed
qed

text \<open>
  C2, as amended: in one run of \<open>checkPitExpire\<close> that starts at time \<open>now\<close>, with
  timeout callbacks that remove nothing from the table (they may take time and may
  express new Interests), every entry of the table whose deadline is at most \<open>now\<close> is
  removed and its timeout callback (when it has one) is called.  The clock is read again
  after each callback, so an entry whose deadline passes during the sweep may be removed
  too; no entry is removed whose deadline is after the reading of the clock at the end
  of the sweep.  The entries that stay keep
  their order, followed by what the callbacks have added, and the callbacks are called in
  the reverse of the insertion order: the entry inserted last times out first.  Here
  \<open>R\<close> is the set of the positions of the removed entries.
\<close>

theorem checkPitExpire_sweeps_backwards:
  assumes "timeout_callbacks_only_append E"
  shows "\<exists>R added n'.
        checkPitExpire E n =
          Some (timeoutCalls (rev (nths (pendingInterestTable n) R)), n')
      \<and> pendingInterestTable n' = nths (pendingInterestTable n) (- R) @ added
      \<and> R \<subseteq> {..<length (pendingInterestTable n)}
      \<and> (\<forall>i<length (pendingInterestTable n).
            timeoutTimeMilliseconds (pendingInterestTable n ! i) \<le> nowMilliseconds n
            \<longrightarrow> i \<in> R)
      \<and> (\<forall>i\<in>R. timeoutTimeMilliseconds (pendingInterestTable n ! i) \<le> nowMilliseconds n')
      \<and> nowMilliseconds n \<le> nowMilliseconds n'"
  using checkPitExpire_loop_sweep [OF assms, of "length (pendingInterestTable n)" n]
  by (simp add: checkPitExpire_def)

theorem checkPitExpire_sweeps_backwards_witness:
  "timeout_callbacks_only_append retransmit_env
   \<and> map getPendingInterestId (pendingInterestTable example_node) = [1, 2, 3]
   \<and> map_option fst (checkPitExpire retransmit_env example_node) =
       Some [OnTimeoutCall 13 interest_a, OnTimeoutCall 11 interest_x]
   \<and> map_option (\<lambda>r. map getPendingInterestId (pendingInterestTable (snd r)))
       (checkPitExpire retransmit_env example_node) = Some [2, 4, 5]"
proof -
  have h: "timeout_callbacks_only_append retransmit_env"
    by (simp add: timeout_callbacks_only_append_def retransmit_env_def scripted_def
          retransmit_script_def quiet_env_def expressInterest_def
          getNextPendingInterestId_def Let_def)
  have "map_option fst (checkPitExpire retransmit_env example_node) =
       Some [OnTimeoutCall 13 interest_a, OnTimeoutCall 11 interest_x]
   \<and> map_option (\<lambda>r. map getPendingInterestId (pendingInterestTable (snd r)))
       (checkPitExpire retransmit_env example_node) = Some [2, 4, 5]"
    by (simp add: example_defs checkPitExpire_def isTimedOut_def erase_def callTimeout_def
          expressInterest_def getNextPendingInterestId_def Let_def)
  with checkPitExpire_sweeps_backwards [OF h, of example_node] h show ?thesis
    by (simp add: example_defs)
qed

text \<open>
  The claim as it is written fails in its order and in its bound on what is removed.
  On the example node \<open>/x\<close> was inserted before \<open>/a\<close>, both are expired at time
  2000, and the callback of \<open>/a\<close> is called first.  On the node with \<open>/l\<close> and
  \<open>/a\<close>, the deadline 3000 of \<open>/l\<close> is after the time 2000 of the sweep, but the
  callback of \<open>/a\<close> takes 1500 ms, the clock is read again, and \<open>/l\<close> is removed
  too.  And when the callback of \<open>/a\<close> cancels the entry of \<open>/x\<close>, the sweep goes on
  to read the table at a position that is no longer in it.
\<close>

theorem checkPitExpire_insertion_order_counterexample:
  "pendingInterestTable example_node = [pending_x, pending_ab, pending_a]
   \<and> timeoutTimeMilliseconds pending_x \<le> nowMilliseconds example_node
   \<and> timeoutTimeMilliseconds pending_a \<le> nowMilliseconds example_node
   \<and> map_option fst (checkPitExpire quiet_env example_node) =
       Some [OnTimeoutCall 13 interest_a, OnTimeoutCall 11 interest_x]
   \<and> pendingInterestTable late_node = [pending_late, pending_a]
   \<and> nowMilliseconds late_node < timeoutTimeMilliseconds pending_late
   \<and> map_option (\<lambda>r. pendingInterestTable (snd r)) (checkPitExpire slow_env late_node) =
       Some []
   \<and> checkPitExpire cancelling_env example_node = None"
  by (simp add: example_defs checkPitExpire_def isTimedOut_def erase_def callTimeout_def
        removePendingInterest_def)

section \<open>The ids of pending interests\<close>

lemma expressInterest_counter:
  "(\<exists>e. fst (expressInterest E i od ot n) = Inl e \<and>
        lastPendingInterestId (snd (expressInterest E i od ot n)) = lastPendingInterestId n)
   \<or> ((\<exists>e. fst (expressInterest E i od ot n) = Inl e) \<or>
       fst (expressInterest E i od ot n) = Inr (lastPendingInterestId n + 1)) \<and>
      lastPendingInterestId (snd (expressInterest E i od ot n)) = lastPendingInterestId n + 1"
  by (simp add: expressInterest_def getNextPendingInterestId_def Let_def
        split: prod.split option.split)

lemma unat_succ64:
  fixes x :: "64 word"
  assumes "unat x + 1 < 2 ^ 64"
  shows "unat (x + 1) = unat x + 1"
  using assms by (simp add: unat_word_ariths)

lemma ids_of_append: "ids_of (rs @ rs') = ids_of rs @ ids_of rs'"
  by (induction rs rule: ids_of.induct) simp_all

lemma fresh_from_Nil: "fresh_from c [] c"
  by (simp add: fresh_from_def)

lemma fresh_from_append:
  assumes "fresh_from c rs c1" and "fresh_from c1 rs' c2"
  shows "fresh_from c (rs @ rs') c2"
proof -
  from assms have le: "c \<le> c1" "c1 \<le> c2"
    by (simp_all add: fresh_from_def word_le_nat_alt)
  have "\<forall>x\<in>set (ids_of rs). \<forall>y\<in>set (ids_of rs'). x < y"
    using assms by (fastforce simp add: fresh_from_def list_all_iff)
  moreover have "\<forall>x\<in>set (ids_of rs). c < x \<and> x \<le> c2"
    using assms le by (fastforce simp add: fresh_from_def list_all_iff)
  moreover have "\<forall>y\<in>set (ids_of rs'). c < y \<and> y \<le> c2"
    using assms le by (fastforce simp add: fresh_from_def list_all_iff)
  ultimately show ?thesis
    using assms
    by (auto simp add: fresh_from_def ids_of_append sorted_wrt_append list_all_iff)
qed

lemma fresh_from_step:
  assumes "unat c + length (rs @ rs') < 2 ^ 64"
    and "unat c + length rs < 2 ^ 64 \<Longrightarrow> fresh_from c rs c1"
    and "unat c1 + length rs' < 2 ^ 64 \<Longrightarrow> fresh_from c1 rs' c2"
  shows "fresh_from c (rs @ rs') c2"
proof -
  from assms(1) have "unat c + length rs < 2 ^ 64" by simp
  from assms(2) [OF this] have a: "fresh_from c rs c1" .
  then have "unat c1 \<le> unat c + length rs" by (simp add: fresh_from_def)
  with assms(1) have "unat c1 + length rs' < 2 ^ 64" by simp
  from assms(3) [OF this] have "fresh_from c1 rs' c2" .
  with a show ?thesis by (rule fresh_from_append)
qed

lemma expressInterest_fresh:
  assumes "unat (lastPendingInterestId n) + 1 < 2 ^ 64"
  shows "fresh_from (lastPendingInterestId n) [fst (expressInterest T i od ot n)]
           (lastPendingInterestId (snd (expressInterest T i od ot n)))"
proof -
  let ?c = "lastPendingInterestId n"
  have less: "?c < ?c + 1"
    using assms by (simp add: word_less_nat_alt unat_succ64)
  from expressInterest_counter [of T i od ot n]
  consider (same) e where "fst (expressInterest T i od ot n) = Inl e"
        "lastPendingInterestId (snd (expressInterest T i od ot n)) = ?c"
    | (failed) e where "fst (expressInterest T i od ot n) = Inl e"
        "lastPendingInterestId (snd (expressInterest T i od ot n)) = ?c + 1"
    | (ok) "fst (expressInterest T i od ot n) = Inr (?c + 1)"
        "lastPendingInterestId (snd (expressInterest T i od ot n)) = ?c + 1"
    by auto
  then show ?thesis
  proof cases
    case same
    then show ?thesis by (simp add: fresh_from_def)
  next
    case failed
    with assms show ?thesis by (simp add: fresh_from_def unat_succ64)
  next
    case ok
    with assms less show ?thesis by (simp add: fresh_from_def unat_succ64)
  qed
qed

lemma act_fresh:
  assumes "unat (lastPendingInterestId n) + length (fst (act T a n)) < 2 ^ 64"
  shows "fresh_from (lastPendingInterestId n) (fst (act T a n))
           (lastPendingInterestId (snd (act T a n)))"
proof (cases a)
  case (CallExpressInterest i od ot)
  with assms have "unat (lastPendingInterestId n) + 1 < 2 ^ 64"
    by (simp add: split_beta)
  from expressInterest_fresh [OF this, of T i od ot] show ?thesis
    by (simp add: CallExpressInterest split_beta)
next
  case (CallRemovePendingInterest pid)
  then show ?thesis by (simp add: removePendingInterest_def fresh_from_Nil)
next
  case (Elapse d)
  then show ?thesis by (simp add: fresh_from_Nil)
qed

lemma perform_fresh:
  "unat (lastPendingInterestId n) + length (fst (perform T as n)) < 2 ^ 64 \<Longrightarrow>
   fresh_from (lastPendingInterestId n) (fst (perform T as n))
     (lastPendingInterestId (snd (perform T as n)))"
proof (induction as arbitrary: n)
  case Nil
  show ?case by (simp add: fresh_from_Nil)
next
  case (Cons a as)
  let ?n1 = "snd (act T a n)"
  have eq: "perform T (a # as) n =
      (fst (act T a n) @ fst (perform T as ?n1), snd (perform T as ?n1))"
    by (simp add: split_beta)
  from Cons.prems have b: "unat (lastPendingInterestId n) +
      length (fst (act T a n) @ fst (perform T as ?n1)) < 2 ^ 64"
    unfolding eq by simp
  have "fresh_from (lastPendingInterestId n) (fst (act T a n) @ fst (perform T as ?n1))
          (lastPendingInterestId (snd (perform T as ?n1)))"
    using b by (rule fresh_from_step) (rule act_fresh, assumption, rule Cons.IH, assumption)
  then show ?case unfolding eq by simp
qed

lemma callTimeout_scripted_None:
  "getOnTimeout p = None \<Longrightarrow> snd (snd (callTimeout (scripted T A) p n)) = n"
  by (simp add: callTimeout_def)

lemma callTimeout_scripted_Some:
  "getOnTimeout p = Some cb \<Longrightarrow>
   snd (snd (callTimeout (scripted T A) p n)) =
     snd (perform T (fst (A (OnTimeoutCall cb (getInterest p)) n)) n)"
  by (simp add: callTimeout_def scripted_def)

lemma checkPitExpire_results_fresh:
  "checkPitExpire_results T A k now n = Some (rs, n') \<Longrightarrow>
   unat (lastPendingInterestId n) + length rs < 2 ^ 64 \<Longrightarrow>
   fresh_from (lastPendingInterestId n) rs (lastPendingInterestId n')"
proof (induction k arbitrary: now n rs n')
  case 0
  then show ?case by (simp add: fresh_from_Nil)
next
  case (Suc k)
  let ?p = "pendingInterestTable n ! k"
  show ?case
  proof (cases "isTimedOut ?p now")
    case False
    with Suc.prems(1) have "checkPitExpire_results T A k now n = Some (rs, n')"
      by (simp split: if_splits)
    from Suc.IH [OF this Suc.prems(2)] show ?thesis .
  next
    case True
    define n1 where "n1 = n\<lparr>pendingInterestTable := erase (pendingInterestTable n) k\<rparr>"
    define n2 where "n2 = snd (snd (callTimeout (scripted T A) ?p n1))"
    define rs1 where "rs1 =
      (case getOnTimeout ?p of
         None \<Rightarrow> []
       | Some cb \<Rightarrow> fst (perform T (fst (A (OnTimeoutCall cb (getInterest ?p)) n1)) n1))"
    from Suc.prems(1) True obtain rs2 where
      rest: "checkPitExpire_results T A k (nowMilliseconds n2) n2 = Some (rs2, n')"
      and rs: "rs = rs1 @ rs2"
      by (auto simp add: Let_def n1_def n2_def rs1_def split: if_splits option.splits)
    have c1: "lastPendingInterestId n1 = lastPendingInterestId n" by (simp add: n1_def)
    have cb: "unat (lastPendingInterestId n1) + length rs1 < 2 ^ 64 \<Longrightarrow>
              fresh_from (lastPendingInterestId n1) rs1 (lastPendingInterestId n2)"
    proof (cases "getOnTimeout ?p")
      case None
      then show ?thesis
        by (simp add: rs1_def n2_def callTimeout_scripted_None fresh_from_Nil)
    next
      case (Some cb)
      assume "unat (lastPendingInterestId n1) + length rs1 < 2 ^ 64"
      then show ?thesis
        using perform_fresh [of n1 T "fst (A (OnTimeoutCall cb (getInterest ?p)) n1)"]
        by (simp add: rs1_def n2_def Some callTimeout_scripted_Some)
    qed
    from Suc.prems(2) have "unat (lastPendingInterestId n1) + length (rs1 @ rs2) < 2 ^ 64"
      by (simp add: rs c1)
    then have "fresh_from (lastPendingInterestId n1) (rs1 @ rs2) (lastPendingInterestId n')"
      by (rule fresh_from_step) (rule cb, assumption, rule Suc.IH [OF rest], assumption)
    then show ?thesis by (simp add: rs c1)
  qed
qed

lemma map_option_snd_case:
  "map_option snd (case x of None \<Rightarrow> None | Some (a, b) \<Rightarrow> Some (f a, b)) = map_option snd x"
  by (cases x) auto

lemma checkPitExpire_results_nodes:
  "map_option snd (checkPitExpire_results T A k now n) =
   map_option snd (checkPitExpire_loop (scripted T A) k now n)"
proof (induction k arbitrary: now n)
  case 0
  show ?case by simp
next
  case (Suc k)
  show ?case
    by (simp add: Let_def map_option_snd_case Suc.IH)
qed

lemma expressInterest_results_fresh:
  "unat (lastPendingInterestId n) + length (expressInterest_results T A ss n) < 2 ^ 64 \<Longrightarrow>
   \<exists>c'. fresh_from (lastPendingInterestId n) (expressInterest_results T A ss n) c'"
proof (induction ss arbitrary: n)
  case Nil
  show ?case using fresh_from_Nil by auto
next
  case (Cons s ss)
  show ?case
  proof (cases s)
    case (Application a)
    let ?n1 = "snd (act T a n)"
    have eq: "expressInterest_results T A (s # ss) n =
        fst (act T a n) @ expressInterest_results T A ss ?n1"
      by (simp add: Application split_beta)
    from Cons.prems have b: "unat (lastPendingInterestId n) +
        length (fst (act T a n) @ expressInterest_results T A ss ?n1) < 2 ^ 64"
      unfolding eq by simp
    then have b1: "unat (lastPendingInterestId n) + length (fst (act T a n)) < 2 ^ 64"
      by simp
    from act_fresh [OF b1] have f1: "fresh_from (lastPendingInterestId n) (fst (act T a n))
        (lastPendingInterestId ?n1)" .
    then have "unat (lastPendingInterestId ?n1) \<le>
        unat (lastPendingInterestId n) + length (fst (act T a n))"
      by (simp add: fresh_from_def)
    with b have "unat (lastPendingInterestId ?n1) +
        length (expressInterest_results T A ss ?n1) < 2 ^ 64" by simp
    from Cons.IH [OF this] obtain c' where
      "fresh_from (lastPendingInterestId ?n1) (expressInterest_results T A ss ?n1) c'" ..
    with f1 have "fresh_from (lastPendingInterestId n)
        (fst (act T a n) @ expressInterest_results T A ss ?n1) c'"
      by (rule fresh_from_append)
    then show ?thesis by (auto simp add: eq)
  next
    case (NewNode t)
    from Cons.IH [of "Node_new t (lastPendingInterestId n) (lastRegisteredPrefixId n)
        (nowMilliseconds n)"] Cons.prems
    show ?thesis by (simp add: NewNode Node_new_def)
  next
    case TimerFires
    show ?thesis
    proof (cases "checkPitExpire_results T A (length (pendingInterestTable n))
        (nowMilliseconds n) n")
      case None
      then show ?thesis using fresh_from_Nil by (auto simp add: TimerFires)
    next
      case (Some r)
      obtain rs n1 where r: "r = (rs, n1)" by (cases r)
      have eq: "expressInterest_results T A (s # ss) n =
          rs @ expressInterest_results T A ss n1"
        by (simp add: TimerFires Some r)
      from Cons.prems have b: "unat (lastPendingInterestId n) +
          length (rs @ expressInterest_results T A ss n1) < 2 ^ 64"
        unfolding eq by simp
      then have b1: "unat (lastPendingInterestId n) + length rs < 2 ^ 64" by simp
      from checkPitExpire_results_fresh [OF Some [unfolded r] b1]
      have f1: "fresh_from (lastPendingInterestId n) rs (lastPendingInterestId n1)" .
      then have "unat (lastPendingInterestId n1) \<le> unat (lastPendingInterestId n) + length rs"
        by (simp add: fresh_from_def)
      with b have "unat (lastPendingInterestId n1) +
          length (expressInterest_results T A ss n1) < 2 ^ 64" by simp
      from Cons.IH [OF this] obtain c' where
        "fresh_from (lastPendingInterestId n1) (expressInterest_results T A ss n1) c'" ..
      with f1 have "fresh_from (lastPendingInterestId n)
          (rs @ expressInterest_results T A ss n1) c'"
        by (rule fresh_from_append)
      then show ?thesis by (auto simp add: eq)
    qed
  qed
qed

text \<open>
  C9: along every sequence of steps of a process (calls of \<open>expressInterest\<close> and
  \<open>removePendingInterest\<close>, sweeps of the timer, with timeout callbacks that may
  themselves express and cancel Interests, and constructions of further nodes), the ids
  that \<open>expressInterest\<close> returns, from within callbacks too, are strictly increasing
  in the order in which they are returned, so pairwise distinct; each of them is above
  the value of the counter at the start and exceeds it by at most the number of calls of
  \<open>expressInterest\<close>.  The counter of the first node of a process is 0.  The number of
  calls of \<open>expressInterest\<close> is less than what is left of the range of the 64-bit
  counter.
\<close>

theorem returned_ids_increasing_distinct:
  assumes "unat (lastPendingInterestId n) + length (expressInterest_results T A ss n) < 2 ^ 64"
  shows "sorted_wrt (<) (returned_ids T A ss n)
       \<and> distinct (returned_ids T A ss n)
       \<and> (\<forall>x \<in> set (returned_ids T A ss n).
            lastPendingInterestId n < x \<and>
            unat x \<le> unat (lastPendingInterestId n) +
                      length (expressInterest_results T A ss n))
       \<and> lastPendingInterestId (first_Node t now) = 0"
proof -
  from expressInterest_results_fresh [OF assms] obtain c' where
    f: "fresh_from (lastPendingInterestId n) (expressInterest_results T A ss n) c'" ..
  then have s: "sorted_wrt (<) (returned_ids T A ss n)"
    by (simp add: fresh_from_def returned_ids_def)
  then have d: "distinct (returned_ids T A ss n)"
    by (simp add: strict_sorted_iff)
  have b: "\<forall>x \<in> set (returned_ids T A ss n).
            lastPendingInterestId n < x \<and>
            unat x \<le> unat (lastPendingInterestId n) +
                      length (expressInterest_results T A ss n)"
  proof
    fix x assume "x \<in> set (returned_ids T A ss n)"
    with f have "lastPendingInterestId n < x" "x \<le> c'"
      by (auto simp add: fresh_from_def returned_ids_def list_all_iff)
    moreover from f have "unat c' \<le> unat (lastPendingInterestId n) +
        length (expressInterest_results T A ss n)"
      by (simp add: fresh_from_def)
    ultimately show "lastPendingInterestId n < x \<and>
            unat x \<le> unat (lastPendingInterestId n) +
                      length (expressInterest_results T A ss n)"
      by (simp add: word_le_nat_alt)
  qed
  from s d b show ?thesis
    by (simp add: first_Node_def Node_new_def initial_lastPendingInterestId_def)
qed

theorem returned_ids_increasing_distinct_witness:
  "expressInterest_results quiet_env retransmit_script
     [Application (CallExpressInterest interest_x (Some 1) (Some 11)),
      Application (Elapse 200), TimerFires, NewNode [],
      Application (CallExpressInterest interest_a None None)] (first_Node [] 0) =
     [Inr 1, Inr 2, Inr 3]
   \<and> unat (lastPendingInterestId (first_Node [] 0 :: string list Node)) +
       length [Inr 1, Inr 2, Inr 3 :: exn + 64 word] < 2 ^ 64
   \<and> returned_ids quiet_env retransmit_script
       [Application (CallExpressInterest interest_x (Some 1) (Some 11)),
        Application (Elapse 200), TimerFires, NewNode [],
        Application (CallExpressInterest interest_a None None)] (first_Node [] 0) = [1, 2, 3]
   \<and> distinct (returned_ids quiet_env retransmit_script
       [Application (CallExpressInterest interest_x (Some 1) (Some 11)),
        Application (Elapse 200), TimerFires, NewNode [],
        Application (CallExpressInterest interest_a None None)] (first_Node [] 0))"
proof -
  have r: "expressInterest_results quiet_env retransmit_script
     [Application (CallExpressInterest interest_x (Some 1) (Some 11)),
      Application (Elapse 200), TimerFires, NewNode [],
      Application (CallExpressInterest interest_a None None)] (first_Node [] 0) =
     [Inr 1, Inr 2, Inr 3]"
    by (simp add: example_defs expressInterest_def getNextPendingInterestId_def
          isTimedOut_def erase_def callTimeout_def Let_def)
  have b: "unat (lastPendingInterestId (first_Node [] 0 :: string list Node)) +
       length (expressInterest_results quiet_env retransmit_script
     [Application (CallExpressInterest interest_x (Some 1) (Some 11)),
      Application (Elapse 200), TimerFires, NewNode [],
      Application (CallExpressInterest interest_a None None)] (first_Node [] 0)) < 2 ^ 64"
    unfolding r by (simp add: example_defs)
  from returned_ids_increasing_distinct [OF b, of "[]" 0] b r show ?thesis
    by (simp add: returned_ids_def)
qed

section \<open>The lookup of a registered prefix\<close>

lemma first_longest_keep:
  assumes "first_longest pre l" "\<not> length (getPrefix (pre ! l)) < length (getPrefix e)"
  shows "first_longest (pre @ [e]) l"
  using assms by (auto simp add: first_longest_def nth_append list_all_iff)

lemma first_longest_move:
  assumes "first_longest pre l" "length (getPrefix (pre ! l)) < length (getPrefix e)"
  shows "first_longest (pre @ [e]) (length pre)"
  using assms by (fastforce simp add: first_longest_def list_all_iff)

lemma getEntryForRegisteredPrefix_loop_inv:
  "tbl = pre @ es \<Longrightarrow> first_longest pre l \<Longrightarrow>
   \<exists>l'. getEntryForRegisteredPrefix_loop tbl es (length pre) (Some l) = Some l'
        \<and> first_longest tbl l'"
proof (induction es arbitrary: pre l)
  case Nil
  then show ?case by simp
next
  case (Cons e es)
  from Cons.prems have l: "l < length pre" by (simp add: first_longest_def)
  then have nth: "tbl ! l = pre ! l" using Cons.prems by (simp add: nth_append)
  have tbl: "tbl = (pre @ [e]) @ es" using Cons.prems by simp
  show ?case
  proof (cases "length (getPrefix (pre ! l)) < length (getPrefix e)")
    case True
    from Cons.IH [OF tbl first_longest_move [OF Cons.prems(2) True]] True nth
    show ?thesis by simp
  next
    case False
    from Cons.IH [OF tbl first_longest_keep [OF Cons.prems(2) False]] False nth
    show ?thesis by simp
  qed
qed

lemma getEntryForRegisteredPrefix_first_longest:
  assumes "tbl \<noteq> []"
  shows "\<exists>l. getEntryForRegisteredPrefix tbl nm = Some l \<and> first_longest tbl l"
proof -
  from assms obtain e es where tbl: "tbl = e # es" by (cases tbl) auto
  have "first_longest [e] 0" by (simp add: first_longest_def)
  from getEntryForRegisteredPrefix_loop_inv [of tbl "[e]" es 0, OF _ this] tbl
  show ?thesis by (simp add: getEntryForRegisteredPrefix_def)
qed

lemma invoke_not_dropped: "invoke E f c n \<noteq> (None, [], n)"
  by (simp add: invoke_def split: option.split prod.split)

text \<open>
  C10: when the table of registered prefixes is not empty, the lookup returns an entry
  for every name, the same for all names: the one with the greatest number of
  components in the whole table, the earliest of them when several have it.  The
  dispatcher then calls the \<open>onInterest\<close> of this entry, so the Interest is not dropped
  silently: either a call is made or the empty function object throws.
\<close>

theorem getEntryForRegisteredPrefix_overall_longest:
  assumes "registeredPrefixTable n \<noteq> []"
  shows "\<exists>l. (\<forall>nm. getEntryForRegisteredPrefix (registeredPrefixTable n) nm = Some l)
        \<and> first_longest (registeredPrefixTable n) l
        \<and> onReceiveElement E (InterestBlock interest) n =
            invoke E (getOnInterest (registeredPrefixTable n ! l))
              (\<lambda>cb. OnInterestCall cb (getPrefix (registeredPrefixTable n ! l)) interest
                      (getRegisteredPrefixId (registeredPrefixTable n ! l))) n
        \<and> onReceiveElement E (InterestBlock interest) n \<noteq> (None, [], n)"
proof -
  from getEntryForRegisteredPrefix_first_longest [OF assms, of "[]"]
  obtain l where l: "getEntryForRegisteredPrefix (registeredPrefixTable n) [] = Some l"
    and f: "first_longest (registeredPrefixTable n) l" by blast
  have all: "\<forall>nm. getEntryForRegisteredPrefix (registeredPrefixTable n) nm = Some l"
    using l by (simp add: getEntryForRegisteredPrefix_def)
  then have r: "onReceiveElement E (InterestBlock interest) n =
            invoke E (getOnInterest (registeredPrefixTable n ! l))
              (\<lambda>cb. OnInterestCall cb (getPrefix (registeredPrefixTable n ! l)) interest
                      (getRegisteredPrefixId (registeredPrefixTable n ! l))) n"
    by (simp add: onReceiveElement_def Let_def)
  from all f r invoke_not_dropped show ?thesis by metis
qed

theorem getEntryForRegisteredPrefix_overall_longest_witness:
  "registeredPrefixTable example_node \<noteq> []
   \<and> getEntryForRegisteredPrefix (registeredPrefixTable example_node) [''z''] = Some 1
   \<and> first_longest (registeredPrefixTable example_node) 1
   \<and> onReceiveElement quiet_env (InterestBlock interest_x) example_node =
       (None, [OnInterestCall 22 [''a'', ''b''] interest_x 2], example_node)"
  using getEntryForRegisteredPrefix_overall_longest [of example_node quiet_env interest_x]
  by (simp add: example_defs getEntryForRegisteredPrefix_def first_longest_def
        onReceiveElement_def invoke_def Let_def)

text \<open>
  C1 on the code: with \<open>/a\<close> and then \<open>/a/b\<close> registered, an Interest for \<open>/a/x\<close>
  should go to the entry of \<open>/a\<close>, the only prefix of its name.  The lookup returns
  the entry of \<open>/a/b\<close>, which is not a prefix of \<open>/a/x\<close>, and the dispatcher calls its
  callback.
\<close>

theorem getEntryForRegisteredPrefix_returns_non_matching:
  "Name_match (getPrefix registered_a) (getName interest_ax)
   \<and> \<not> Name_match (getPrefix registered_ab) (getName interest_ax)
   \<and> registeredPrefixTable example_node = [registered_a, registered_ab]
   \<and> getEntryForRegisteredPrefix (registeredPrefixTable example_node) (getName interest_ax)
       = Some 1
   \<and> onReceiveElement quiet_env (InterestBlock interest_ax) example_node =
       (None, [OnInterestCall 22 [''a'', ''b''] interest_ax 2], example_node)"
  by (simp add: example_defs getEntryForRegisteredPrefix_def Name_match_def
        onReceiveElement_def invoke_def Let_def)

section \<open>The dispatch of Data\<close>

lemma getEntryIndex_None:
  "getEntryIndexForExpressedInterest tbl nm = None \<longleftrightarrow>
     (\<forall>e \<in> set tbl. \<not> matchesName (getInterest e) nm)"
  by (induction tbl) auto

lemma getEntryIndex_Some:
  "getEntryIndexForExpressedInterest tbl nm = Some i \<longleftrightarrow>
     i < length tbl \<and> matchesName (getInterest (tbl ! i)) nm \<and>
     (\<forall>e \<in> set (take i tbl). \<not> matchesName (getInterest e) nm)"
proof (induction tbl arbitrary: i)
  case Nil
  then show ?case by simp
next
  case (Cons e es)
  show ?case
  proof (cases "matchesName (getInterest e) nm")
    case True
    then show ?thesis by (cases i) auto
  next
    case False
    then show ?thesis using Cons.IH by (cases i) auto
  qed
qed

lemma onReceiveElement_Data_Some:
  "getEntryIndexForExpressedInterest (pendingInterestTable n) (getDataName d) = Some i \<Longrightarrow>
   onReceiveElement E (DataBlock d) n =
     invoke E (getOnData (pendingInterestTable n ! i))
       (\<lambda>cb. OnDataCall cb (getInterest (pendingInterestTable n ! i)) d)
       (n\<lparr>pendingInterestTable := erase (pendingInterestTable n) i\<rparr>)"
  by (simp add: onReceiveElement_def Let_def)

lemma onReceiveElement_Data_None:
  "getEntryIndexForExpressedInterest (pendingInterestTable n) (getDataName d) = None \<Longrightarrow>
   onReceiveElement E (DataBlock d) n = (None, [], n)"
  by (simp add: onReceiveElement_def)

text \<open>
  C4: for a Data block, when no entry of the table has an Interest whose name is a prefix
  of the name of the Data, nothing is called and the node is unchanged.  Otherwise let
  \<open>i\<close> be the first such entry in insertion order: the callback \<open>onData\<close> of this entry
  is called exactly once, with the Interest of the entry and the Data, on a node from
  whose table entry \<open>i\<close> has already been removed, so the callback does not find its own
  entry there; the result is what the callback returns or throws.  When the entry has
  no \<open>onData\<close>, the entry is removed all the same and the call of the empty function
  object throws.
\<close>

theorem onReceiveElement_Data_first_match:
  "((\<forall>e \<in> set (pendingInterestTable n). \<not> matchesName (getInterest e) (getDataName d)) \<longrightarrow>
      onReceiveElement E (DataBlock d) n = (None, [], n))
   \<and> (i < length (pendingInterestTable n) \<and>
       matchesName (getInterest (pendingInterestTable n ! i)) (getDataName d) \<and>
       (\<forall>e \<in> set (take i (pendingInterestTable n)).
           \<not> matchesName (getInterest e) (getDataName d)) \<longrightarrow>
       (case getOnData (pendingInterestTable n ! i) of
          Some cb \<Rightarrow>
            onReceiveElement E (DataBlock d) n =
              (fst (app E (OnDataCall cb (getInterest (pendingInterestTable n ! i)) d)
                     (n\<lparr>pendingInterestTable :=
                          take i (pendingInterestTable n) @
                          drop (Suc i) (pendingInterestTable n)\<rparr>)),
               [OnDataCall cb (getInterest (pendingInterestTable n ! i)) d],
               snd (app E (OnDataCall cb (getInterest (pendingInterestTable n ! i)) d)
                     (n\<lparr>pendingInterestTable :=
                          take i (pendingInterestTable n) @
                          drop (Suc i) (pendingInterestTable n)\<rparr>)))
        | None \<Rightarrow>
            onReceiveElement E (DataBlock d) n =
              (Some bad_function_call, [],
               n\<lparr>pendingInterestTable :=
                   take i (pendingInterestTable n) @
                   drop (Suc i) (pendingInterestTable n)\<rparr>)))"
proof (intro conjI impI)
  assume "\<forall>e \<in> set (pendingInterestTable n). \<not> matchesName (getInterest e) (getDataName d)"
  then have "getEntryIndexForExpressedInterest (pendingInterestTable n) (getDataName d) = None"
    by (simp add: getEntryIndex_None)
  then show "onReceiveElement E (DataBlock d) n = (None, [], n)"
    by (rule onReceiveElement_Data_None)
next
  assume "i < length (pendingInterestTable n) \<and>
       matchesName (getInterest (pendingInterestTable n ! i)) (getDataName d) \<and>
       (\<forall>e \<in> set (take i (pendingInterestTable n)).
           \<not> matchesName (getInterest e) (getDataName d))"
  then have "getEntryIndexForExpressedInterest (pendingInterestTable n) (getDataName d) = Some i"
    by (simp add: getEntryIndex_Some)
  from onReceiveElement_Data_Some [OF this, of E]
  show "case getOnData (pendingInterestTable n ! i) of
          Some cb \<Rightarrow>
            onReceiveElement E (DataBlock d) n =
              (fst (app E (OnDataCall cb (getInterest (pendingInterestTable n ! i)) d)
                     (n\<lparr>pendingInterestTable :=
                          take i (pendingInterestTable n) @
                          drop (Suc i) (pendingInterestTable n)\<rparr>)),
               [OnDataCall cb (getInterest (pendingInterestTable n ! i)) d],
               snd (app E (OnDataCall cb (getInterest (pendingInterestTable n ! i)) d)
                     (n\<lparr>pendingInterestTable :=
                          take i (pendingInterestTable n) @
                          drop (Suc i) (pendingInterestTable n)\<rparr>)))
        | None \<Rightarrow>
            onReceiveElement E (DataBlock d) n =
              (Some bad_function_call, [],
               n\<lparr>pendingInterestTable :=
                   take i (pendingInterestTable n) @
                   drop (Suc i) (pendingInterestTable n)\<rparr>)"
    by (simp add: invoke_def erase_def split: option.split prod.split)
qed

theorem onReceiveElement_Data_first_match_witness:
  "onReceiveElement quiet_env (DataBlock data_z) example_node = (None, [], example_node)
   \<and> matchesName (getInterest (pendingInterestTable example_node ! 1)) (getDataName data_abc)
   \<and> matchesName (getInterest (pendingInterestTable example_node ! 2)) (getDataName data_abc)
   \<and> onReceiveElement quiet_env (DataBlock data_abc) example_node =
       (None, [OnDataCall 2 interest_ab data_abc],
        example_node\<lparr>pendingInterestTable := [pending_x, pending_a]\<rparr>)"
  using onReceiveElement_Data_first_match [of example_node data_z quiet_env 0]
    onReceiveElement_Data_first_match [of example_node data_abc quiet_env 1]
  by (simp add: example_defs matchesName_def Name_match_def)

section \<open>Expressing an Interest\<close>

lemma expressInterest_after_connect:
  assumes "isConnected E (transport n) \<or> fst (connect E (transport n)) = None"
  shows "expressInterest E interest onData onTimeout n =
     (let t1 = (if isConnected E (transport n) then transport n
                else snd (connect E (transport n)));
          p = PendingInterest_new (lastPendingInterestId n + 1) interest onData onTimeout
                (nowMilliseconds n);
          r = send E t1 (interestWireEncode E interest)
      in ((case fst r of Some e \<Rightarrow> Inl e | None \<Rightarrow> Inr (lastPendingInterestId n + 1)),
          n\<lparr>transport := snd r,
            pendingInterestTable := pendingInterestTable n @ [p],
            lastPendingInterestId := lastPendingInterestId n + 1\<rparr>))"
  using assms
  by (auto simp add: expressInterest_def getNextPendingInterestId_def Let_def
        split: prod.split option.split)

text \<open>
  C3, as amended: when the transport is connected (or connects without an error) and the
  \<open>send\<close> of \<open>expressInterest\<close> throws, the exception reaches the caller, and the
  entry of this call is in the pending interest table: the table is the one before the
  call followed by the new entry.  The insertion is made before the send and is not
  undone.
\<close>

theorem expressInterest_failed_send_keeps_entry:
  assumes "isConnected E (transport n) \<or> fst (connect E (transport n)) = None"
    and "fst (send E (if isConnected E (transport n) then transport n
                      else snd (connect E (transport n)))
               (interestWireEncode E interest)) = Some e"
  shows "fst (expressInterest E interest onData onTimeout n) = Inl e
       \<and> pendingInterestTable (snd (expressInterest E interest onData onTimeout n)) =
           pendingInterestTable n @
             [PendingInterest_new (lastPendingInterestId n + 1) interest onData onTimeout
                (nowMilliseconds n)]"
  using assms(2) by (simp add: expressInterest_after_connect [OF assms(1)] Let_def)

theorem expressInterest_failed_send_keeps_entry_witness:
  "isConnected failing_send_env (transport example_node)
   \<and> fst (send failing_send_env (transport example_node)
            (interestWireEncode failing_send_env interest_ax)) = Some (TransportException 0)
   \<and> fst (expressInterest failing_send_env interest_ax (Some 4) None example_node) =
       Inl (TransportException 0)
   \<and> map getPendingInterestId
       (pendingInterestTable
         (snd (expressInterest failing_send_env interest_ax (Some 4) None example_node))) =
       [1, 2, 3, 4]"
  using expressInterest_failed_send_keeps_entry
    [of failing_send_env example_node interest_ax "TransportException 0" "Some 4" None]
  by (simp add: example_defs)

text \<open>
  The claim as it is written fails on a new node whose transport cannot send: the error
  reaches the caller and the table, empty before the call, holds the new entry.
\<close>

theorem expressInterest_failed_send_counterexample:
  "pendingInterestTable (first_Node [] 0 :: string list Node) = []
   \<and> fst (expressInterest failing_send_env interest_x (Some 1) (Some 11) (first_Node [] 0)) =
       Inl (TransportException 0)
   \<and> pendingInterestTable
       (snd (expressInterest failing_send_env interest_x (Some 1) (Some 11) (first_Node [] 0))) =
       [pending_x]"
  by (simp add: example_defs expressInterest_def getNextPendingInterestId_def Let_def)

lemma i64_in_range: "- (2 ^ 63) \<le> x \<Longrightarrow> x < 2 ^ 63 \<Longrightarrow> i64 x = x"
  by (simp add: i64_def)

text \<open>
  C7: when \<open>expressInterest\<close> gets past the connection of the transport, it appends
  one entry to the table; the entry carries the Interest, and its deadline is the
  reading of the clock plus the lifetime of the Interest when the lifetime is at least 0,
  and the reading of the clock plus 4000 when the lifetime is negative.  This is for a
  clock reading of magnitude at most \<open>2^52\<close> and a lifetime of at most \<open>2^52\<close>
  milliseconds: the sums then stay within the 64-bit integers, and within the integers
  that a double holds exactly.
\<close>

theorem expressInterest_deadline:
  assumes "isConnected E (transport n) \<or> fst (connect E (transport n)) = None"
    and "\<bar>nowMilliseconds n\<bar> \<le> 2 ^ 52"
    and "getInterestLifetime interest \<le> 2 ^ 52"
  shows "\<exists>p. pendingInterestTable (snd (expressInterest E interest onData onTimeout n)) =
              pendingInterestTable n @ [p]
          \<and> getInterest p = interest
          \<and> (0 \<le> getInterestLifetime interest \<longrightarrow>
               timeoutTimeMilliseconds p = nowMilliseconds n + getInterestLifetime interest)
          \<and> (getInterestLifetime interest < 0 \<longrightarrow>
               timeoutTimeMilliseconds p = nowMilliseconds n + 4000)"
proof -
  have a: "0 \<le> getInterestLifetime interest \<Longrightarrow>
           i64 (nowMilliseconds n + getInterestLifetime interest) =
             nowMilliseconds n + getInterestLifetime interest"
    using assms(2,3) by (intro i64_in_range) simp_all
  have b: "i64 (nowMilliseconds n + 4000) = nowMilliseconds n + 4000"
    using assms(2) by (intro i64_in_range) simp_all
  show ?thesis
    using a b
    by (simp add: expressInterest_after_connect [OF assms(1)] Let_def PendingInterest_new_def)
qed

theorem expressInterest_deadline_witness:
  "isConnected quiet_env (transport example_node)
   \<and> \<bar>nowMilliseconds example_node\<bar> \<le> 2 ^ 52
   \<and> getInterestLifetime interest_a \<le> 2 ^ 52
   \<and> getInterestLifetime interest_ax \<le> 2 ^ 52
   \<and> map timeoutTimeMilliseconds
       (pendingInterestTable (snd (expressInterest quiet_env interest_a None None example_node)))
       = [150, 4000, 1000, 3000]
   \<and> map timeoutTimeMilliseconds
       (pendingInterestTable (snd (expressInterest quiet_env interest_ax None None example_node)))
       = [150, 4000, 1000, 6000]"
proof -
  have c: "isConnected quiet_env (transport example_node)"
    by (simp add: quiet_env_def)
  then have c': "isConnected quiet_env (transport example_node) \<or>
                 fst (connect quiet_env (transport example_node)) = None" ..
  have n: "\<bar>nowMilliseconds example_node\<bar> \<le> 2 ^ 52"
    by (simp add: example_node_def)
  have la: "getInterestLifetime interest_a \<le> 2 ^ 52"
    by (simp add: interest_a_def)
  have lax: "getInterestLifetime interest_ax \<le> 2 ^ 52"
    by (simp add: interest_ax_def)
  from expressInterest_deadline [OF c' n la, of None None]
  obtain p where p: "pendingInterestTable
        (snd (expressInterest quiet_env interest_a None None example_node)) =
        pendingInterestTable example_node @ [p]"
    "timeoutTimeMilliseconds p = 3000"
    by (auto simp add: interest_a_def example_node_def)
  from expressInterest_deadline [OF c' n lax, of None None]
  obtain q where q: "pendingInterestTable
        (snd (expressInterest quiet_env interest_ax None None example_node)) =
        pendingInterestTable example_node @ [q]"
    "timeoutTimeMilliseconds q = 6000"
    by (auto simp add: interest_ax_def example_node_def)
  from c n la lax p q show ?thesis
    by (simp add: example_defs)
qed

section \<open>The registration Interest\<close>

text \<open>
  C6: for every call of \<open>registerPrefixHelper\<close> there is an Interest whose name is
  the four components \<open>ndnx\<close>, the id of the hub, \<open>selfreg\<close> and the encoding of the
  Data packet (empty name, the encoded forwarding entry as content, the signature with an
  empty value), and whose scope is 1, such that the helper passes the encoding of this
  Interest to \<open>send\<close>; and whatever \<open>send\<close> does, return or throw, the table of
  registered prefixes is then the one before the call followed by the entry of the
  prefix, the callback and the id: the entry is appended before the send.
\<close>

theorem registerPrefixHelper_selfreg_interest:
  "\<exists>interest.
     getName interest =
       [''ndnx'', ndndId n, ''selfreg'',
        dataWireEncode E
          \<lparr>getDataName = [],
           getContent = forwardingEntryWireEncode E
             \<lparr>getAction = ''selfreg'', getEntryPrefix = prefix, getFaceId = - 1,
              getForwardingFlags = flags, getFreshnessPeriod = - 1\<rparr>,
           getSignature = SignatureSha256WithRsa []\<rparr>]
   \<and> getScope interest = 1
   \<and> registerPrefixHelper E registeredPrefixId prefix onInterest onRegisterFailed flags n =
       (fst (send E (transport n) (interestWireEncode E interest)),
        n\<lparr>registeredPrefixTable := registeredPrefixTable n @
             [\<lparr>getRegisteredPrefixId = registeredPrefixId, getPrefix = prefix,
               getOnInterest = onInterest\<rparr>],
          transport := snd (send E (transport n) (interestWireEncode E interest))\<rparr>)"
  by (rule exI [of _ "\<lparr>getName =
       [''ndnx'', ndndId n, ''selfreg'',
        dataWireEncode E
          \<lparr>getDataName = [],
           getContent = forwardingEntryWireEncode E
             \<lparr>getAction = ''selfreg'', getEntryPrefix = prefix, getFaceId = - 1,
              getForwardingFlags = flags, getFreshnessPeriod = - 1\<rparr>,
           getSignature = SignatureSha256WithRsa []\<rparr>],
       getInterestLifetime = - 1, getScope = 1\<rparr>"])
    (simp add: registerPrefixHelper_def Let_def Data_default_def Interest_of_name_def
       setScope_def split: prod.split)

section \<open>Exceptions of callbacks\<close>

lemma callTimeout_without_exceptions:
  "callTimeout (without_exceptions E) p n = callTimeout E p n"
  by (simp add: callTimeout_def without_exceptions_def split: option.split prod.split)

lemma checkPitExpire_loop_without_exceptions:
  "checkPitExpire_loop (without_exceptions E) k now n = checkPitExpire_loop E k now n"
proof (induction k arbitrary: now n)
  case 0
  show ?case by simp
next
  case (Suc k)
  show ?case by (simp add: Let_def callTimeout_without_exceptions Suc.IH)
qed

lemma fst_invoke_Some: "fst (invoke E (Some cb) c n) = fst (app E (c cb) n)"
  by (simp add: invoke_def split: prod.split)

lemma snd_invoke_Some: "snd (snd (invoke E (Some cb) c n)) = snd (app E (c cb) n)"
  by (simp add: invoke_def split: prod.split)

text \<open>
  C5, as amended: an exception of an \<open>onTimeout\<close> callback is caught in
  \<open>callTimeout\<close> and goes no further, so a sweep of the table gives the same result
  whether its callbacks throw or not.  An exception of an \<open>onData\<close> or \<open>onInterest\<close>
  callback is not caught by the dispatcher: \<open>onReceiveElement\<close> throws what the
  callback throws, and the node is left as the callback left it (for Data, with the
  matched entry already removed).
\<close>

theorem callback_exceptions_timer_swallows_dispatcher_propagates:
  "fst (callTimeout E p n) = None
   \<and> checkPitExpire (without_exceptions E) n = checkPitExpire E n
   \<and> (getEntryIndexForExpressedInterest (pendingInterestTable n) (getDataName d) = Some i \<and>
       getOnData (pendingInterestTable n ! i) = Some cb \<longrightarrow>
         fst (onReceiveElement E (DataBlock d) n) =
           fst (app E (OnDataCall cb (getInterest (pendingInterestTable n ! i)) d)
                  (n\<lparr>pendingInterestTable := erase (pendingInterestTable n) i\<rparr>)) \<and>
         snd (snd (onReceiveElement E (DataBlock d) n)) =
           snd (app E (OnDataCall cb (getInterest (pendingInterestTable n ! i)) d)
                  (n\<lparr>pendingInterestTable := erase (pendingInterestTable n) i\<rparr>)))
   \<and> (getEntryForRegisteredPrefix (registeredPrefixTable n) (getName interest) = Some l \<and>
       getOnInterest (registeredPrefixTable n ! l) = Some cb' \<longrightarrow>
         fst (onReceiveElement E (InterestBlock interest) n) =
           fst (app E (OnInterestCall cb' (getPrefix (registeredPrefixTable n ! l)) interest
                         (getRegisteredPrefixId (registeredPrefixTable n ! l))) n) \<and>
         snd (snd (onReceiveElement E (InterestBlock interest) n)) =
           snd (app E (OnInterestCall cb' (getPrefix (registeredPrefixTable n ! l)) interest
                         (getRegisteredPrefixId (registeredPrefixTable n ! l))) n))"
proof (intro conjI impI)
  show "fst (callTimeout E p n) = None"
    by (simp add: callTimeout_def split: option.split prod.split)
  show "checkPitExpire (without_exceptions E) n = checkPitExpire E n"
    by (simp add: checkPitExpire_def checkPitExpire_loop_without_exceptions)
next
  assume a: "getEntryIndexForExpressedInterest (pendingInterestTable n) (getDataName d) = Some i \<and>
       getOnData (pendingInterestTable n ! i) = Some cb"
  then show "fst (onReceiveElement E (DataBlock d) n) =
           fst (app E (OnDataCall cb (getInterest (pendingInterestTable n ! i)) d)
                  (n\<lparr>pendingInterestTable := erase (pendingInterestTable n) i\<rparr>))"
    by (simp add: onReceiveElement_def Let_def fst_invoke_Some)
  from a show "snd (snd (onReceiveElement E (DataBlock d) n)) =
           snd (app E (OnDataCall cb (getInterest (pendingInterestTable n ! i)) d)
                  (n\<lparr>pendingInterestTable := erase (pendingInterestTable n) i\<rparr>))"
    by (simp add: onReceiveElement_def Let_def snd_invoke_Some)
next
  assume a: "getEntryForRegisteredPrefix (registeredPrefixTable n) (getName interest) = Some l \<and>
       getOnInterest (registeredPrefixTable n ! l) = Some cb'"
  then show "fst (onReceiveElement E (InterestBlock interest) n) =
           fst (app E (OnInterestCall cb' (getPrefix (registeredPrefixTable n ! l)) interest
                         (getRegisteredPrefixId (registeredPrefixTable n ! l))) n)"
    by (simp add: onReceiveElement_def Let_def fst_invoke_Some)
  from a show "snd (snd (onReceiveElement E (InterestBlock interest) n)) =
           snd (app E (OnInterestCall cb' (getPrefix (registeredPrefixTable n ! l)) interest
                         (getRegisteredPrefixId (registeredPrefixTable n ! l))) n)"
    by (simp add: onReceiveElement_def Let_def snd_invoke_Some)
qed

theorem callback_exceptions_timer_swallows_dispatcher_propagates_witness:
  "getEntryIndexForExpressedInterest (pendingInterestTable example_node)
       (getDataName data_abc) = Some 1
   \<and> getOnData (pendingInterestTable example_node ! 1) = Some 2
   \<and> getEntryForRegisteredPrefix (registeredPrefixTable example_node)
       (getName interest_ax) = Some 1
   \<and> getOnInterest (registeredPrefixTable example_node ! 1) = Some 22
   \<and> fst (callTimeout throwing_env pending_x example_node) = None
   \<and> fst (onReceiveElement throwing_env (DataBlock data_abc) example_node) =
       Some (AppException 0)
   \<and> pendingInterestTable
       (snd (snd (onReceiveElement throwing_env (DataBlock data_abc) example_node))) =
       [pending_x, pending_a]
   \<and> fst (onReceiveElement throwing_env (InterestBlock interest_ax) example_node) =
       Some (AppException 0)"
  using callback_exceptions_timer_swallows_dispatcher_propagates
    [of throwing_env pending_x example_node data_abc 1 2 interest_ax 1 22]
  by (simp add: example_defs matchesName_def Name_match_def
        getEntryForRegisteredPrefix_def erase_def)

text \<open>
  The claim as it is written fails for \<open>onData\<close> and \<open>onInterest\<close>: with callbacks
  that throw, the exception leaves \<open>onReceiveElement\<close>, for a Data block as for an
  Interest block.
\<close>

theorem onReceiveElement_exception_counterexample:
  "onReceiveElement throwing_env (DataBlock data_abc) example_node =
     (Some (AppException 0), [OnDataCall 2 interest_ab data_abc],
      example_node\<lparr>pendingInterestTable := [pending_x, pending_a]\<rparr>)
   \<and> onReceiveElement throwing_env (InterestBlock interest_ax) example_node =
     (Some (AppException 0), [OnInterestCall 22 [''a'', ''b''] interest_ax 2], example_node)"
  by (simp add: example_defs onReceiveElement_def invoke_def Let_def erase_def
        matchesName_def Name_match_def getEntryForRegisteredPrefix_def)

end
